theory Spec2Isabelle
  imports Main
begin

section \<open>The ToS;DR link scraper (web_scraper/tos_data_scraper.py)\<close>

text \<open>
  The script logs into a site, walks a fixed number of listing pages, takes one link out
  of every table row and writes the links to a CSV file. Everything it does beyond
  computing values is made explicit here: HTTP requests are appended to a trace, log
  records and the seconds slept are accumulated, the file system is a map from file names
  to contents, and an exception is a value \<open>Inl e\<close> of the result. The site always
  answers; what the HTTP library does with a redirecting answer is part of the model.
\<close>

subsection \<open>The environment: HTTP responses and parsed HTML\<close>

text \<open>
  A parsed document is what \<^verbatim>\<open>BeautifulSoup(response.text, 'html.parser')\<close> hands to the
  script: a forest of tags and text nodes. A tag carries its name, its single-valued
  attributes (a dict; the script reads \<^verbatim>\<open>name\<close>, \<^verbatim>\<open>value\<close> and \<^verbatim>\<open>href\<close>), the token
  list of its \<^verbatim>\<open>class\<close> attribute (which the parser keeps as a list), and its contents.
\<close>

datatype html =
    Tag string "(string \<times> string) list" "string list" "html list"
  | NavigableString string

fun tag_name :: "html \<Rightarrow> string" where
  "tag_name (Tag n as cs ch) = n"
| "tag_name (NavigableString s) = []"

fun attrs :: "html \<Rightarrow> (string \<times> string) list" where
  "attrs (Tag n as cs ch) = as"
| "attrs (NavigableString s) = []"

fun classes :: "html \<Rightarrow> string list" where
  "classes (Tag n as cs ch) = cs"
| "classes (NavigableString s) = []"

fun contents :: "html \<Rightarrow> html list" where
  "contents (Tag n as cs ch) = ch"
| "contents (NavigableString s) = []"

text \<open>All tags below a forest, in document order (what \<^verbatim>\<open>find_all\<close> iterates over).\<close>

fun descendants :: "html list \<Rightarrow> html list" where
  "descendants [] = []"
| "descendants (NavigableString s # rest) = descendants rest"
| "descendants (Tag n as cs ch # rest) = Tag n as cs ch # descendants ch @ descendants rest"

definition find_all :: "string \<Rightarrow> (html \<Rightarrow> bool) \<Rightarrow> html list \<Rightarrow> html list" where
  "find_all nm p doc = filter (\<lambda>t. tag_name t = nm \<and> p t) (descendants doc)"

text \<open>\<^verbatim>\<open>find\<close> is the first result of \<^verbatim>\<open>find_all\<close>, or \<^verbatim>\<open>None\<close>.\<close>

definition find_first :: "string \<Rightarrow> (html \<Rightarrow> bool) \<Rightarrow> html list \<Rightarrow> html option" where
  "find_first nm p doc = (case find_all nm p doc of [] \<Rightarrow> None | t # _ \<Rightarrow> Some t)"

definition attr_is :: "string \<Rightarrow> string \<Rightarrow> html \<Rightarrow> bool" where
  "attr_is k v t = (map_of (attrs t) k = Some v)"

definition class_is :: "string \<Rightarrow> html \<Rightarrow> bool" where
  "class_is c t = (c \<in> set (classes t))"

text \<open>
  A response carries its status, its \<^verbatim>\<open>Location\<close> header when it has one (as the absolute
  URL that \<^verbatim>\<open>requests\<close> resolves it to) and its parsed body. A remote is the site: it
  gives the answer to one single request.
\<close>

record response =
  status_code :: int
  location :: "string option"
  soup :: "html list"

datatype request = GET string | POST string "(string \<times> string) list"

type_synonym remote = "request \<Rightarrow> response"

datatype exn = HTTPError int | KeyError string | AttributeError string | TooManyRedirects

datatype level = INFO | ERROR

text \<open>
  The world: the requests the script makes on the session, the requests the session
  sends on its own while it follows redirects, the log, the seconds slept and the files.
\<close>

record world =
  requests :: "request list"
  followed :: "request list"
  logged :: "(level \<times> string) list"
  slept :: nat
  files :: "string \<rightharpoonup> string"

subsection \<open>The session: requests follows redirects\<close>

text \<open>
  \<^verbatim>\<open>Session.get\<close> and \<^verbatim>\<open>Session.post\<close> do not hand the site's first answer to the
  script. An answer with status 301, 302, 303, 307 or 308 and a \<^verbatim>\<open>Location\<close> header is a
  redirect: the session sends a further request to the target and goes on with the
  answer to that one, up to thirty times (\<^verbatim>\<open>max_redirects\<close>); when the thirtieth
  follow-up is answered by a redirect again, \<^verbatim>\<open>TooManyRedirects\<close> is raised. The script
  gets the last response of the chain. A POST is followed by a GET without body after
  301, 302 and 303, and repeated as it is after 307 and 308; a GET stays a GET.
\<close>

definition is_redirect :: "response \<Rightarrow> bool" where
  "is_redirect resp =
     (location resp \<noteq> None \<and> status_code resp \<in> {301, 302, 303, 307, 308})"

definition get_redirect_target :: "response \<Rightarrow> string option" where
  "get_redirect_target resp = (if is_redirect resp then location resp else None)"

definition rebuild_method :: "request \<Rightarrow> response \<Rightarrow> string \<Rightarrow> request" where
  "rebuild_method req resp url =
     (case req of
        GET _ \<Rightarrow> GET url
      | POST _ payload \<Rightarrow>
          if status_code resp = 307 \<or> status_code resp = 308 then POST url payload
          else GET url)"

text \<open>
  The loop of \<^verbatim>\<open>resolve_redirects\<close> (\<^verbatim>\<open>while url:\<close>, so an empty target ends it), with
  the number of redirects still allowed. It gives the follow-up requests sent and the
  last response, or the exception.
\<close>

fun resolve_redirects ::
  "remote \<Rightarrow> nat \<Rightarrow> request \<Rightarrow> response \<Rightarrow> request list \<times> (exn + response)" where
  "resolve_redirects srv n req resp =
     (case get_redirect_target resp of
        None \<Rightarrow> ([], Inr resp)
      | Some url \<Rightarrow>
          if url = [] then ([], Inr resp)
          else if n = 0 then ([], Inl TooManyRedirects)
          else
            (let req' = rebuild_method req resp url;
                 (hops, outcome) = resolve_redirects srv (n - 1) req' (srv req')
             in (req' # hops, outcome)))"

declare resolve_redirects.simps [simp del]

definition max_redirects :: nat where
  "max_redirects = 30"

definition session_send :: "remote \<Rightarrow> request \<Rightarrow> request list \<times> (exn + response)" where
  "session_send srv req = resolve_redirects srv max_redirects req (srv req)"

definition session_get :: "remote \<Rightarrow> string \<Rightarrow> world \<Rightarrow> (exn + response) \<times> world" where
  "session_get srv url w =
     (let (hops, outcome) = session_send srv (GET url)
      in (outcome, w\<lparr>requests := requests w @ [GET url], followed := followed w @ hops\<rparr>))"

definition session_post ::
  "remote \<Rightarrow> string \<Rightarrow> (string \<times> string) list \<Rightarrow> world \<Rightarrow> (exn + response) \<times> world" where
  "session_post srv url payload w =
     (let (hops, outcome) = session_send srv (POST url payload)
      in (outcome,
          w\<lparr>requests := requests w @ [POST url payload], followed := followed w @ hops\<rparr>))"

text \<open>\<^verbatim>\<open>Response.raise_for_status\<close> raises for the 4xx and 5xx statuses only.\<close>

definition raise_for_status :: "response \<Rightarrow> exn + unit" where
  "raise_for_status r =
     (if 400 \<le> status_code r \<and> status_code r < 600 then Inl (HTTPError (status_code r))
      else Inr ())"

definition logging :: "level \<Rightarrow> string \<Rightarrow> world \<Rightarrow> world" where
  "logging lv msg w = w\<lparr>logged := logged w @ [(lv, msg)]\<rparr>"

subsection \<open>Constants\<close>

definition BASE_URL :: string where
  "BASE_URL = ''https://edit.tosdr.org''"

definition LOGIN_URL :: string where
  "LOGIN_URL = BASE_URL @ ''/users/sign_in''"

definition SERVICES_URL :: string where
  "SERVICES_URL = BASE_URL @ ''/services''"

definition DELAY :: nat where
  "DELAY = 5"

definition TOTAL_PAGES :: int where
  "TOTAL_PAGES = 328"

subsection \<open>fetch_csrf_token\<close>

definition fetch_csrf_token :: "remote \<Rightarrow> world \<Rightarrow> (exn + string option) \<times> world" where
  "fetch_csrf_token srv w =
     (case session_get srv LOGIN_URL w of
        (Inl e, w1) \<Rightarrow> (Inl e, w1)
      | (Inr response, w1) \<Rightarrow>
          (case raise_for_status response of
             Inl e \<Rightarrow> (Inl e, w1)
           | Inr _ \<Rightarrow>
               (case find_first ''input'' (attr_is ''name'' ''authenticity_token'')
                       (soup response) of
                  None \<Rightarrow> (Inr None, logging ERROR ''Failed to retrieve CSRF token.'' w1)
                | Some token_input \<Rightarrow>
                    (case map_of (attrs token_input) ''value'' of
                       None \<Rightarrow> (Inl (KeyError ''value''), w1)
                     | Some v \<Rightarrow> (Inr (Some v), w1)))))"

subsection \<open>login\<close>

text \<open>Python's \<^verbatim>\<open>str\<close> of an integer, used by the log message and the page URL.\<close>

definition digit_char :: "nat \<Rightarrow> char" where
  "digit_char d = ''0123456789'' ! d"

fun str_nat :: "nat \<Rightarrow> string" where
  "str_nat n = (if n < 10 then [digit_char n] else str_nat (n div 10) @ [digit_char (n mod 10)])"

declare str_nat.simps [simp del]

definition str_int :: "int \<Rightarrow> string" where
  "str_int i = (if i < 0 then CHR ''-'' # str_nat (nat (- i)) else str_nat (nat i))"

text \<open>
  \<^verbatim>\<open>if not csrf_token\<close> is taken by \<^verbatim>\<open>None\<close> and by the empty string alike.
\<close>

definition login :: "remote \<Rightarrow> string \<Rightarrow> string \<Rightarrow> world \<Rightarrow> (exn + bool) \<times> world" where
  "login srv email password w =
     (case fetch_csrf_token srv w of
        (Inl e, w1) \<Rightarrow> (Inl e, w1)
      | (Inr None, w1) \<Rightarrow> (Inr False, w1)
      | (Inr (Some csrf_token), w1) \<Rightarrow>
          if csrf_token = [] then (Inr False, w1)
          else
            (let payload = [(''user[email]'', email), (''user[password]'', password),
                            (''authenticity_token'', csrf_token)]
             in case session_post srv LOGIN_URL payload w1 of
                  (Inl e, w2) \<Rightarrow> (Inl e, w2)
                | (Inr response, w2) \<Rightarrow>
                    if status_code response \<noteq> 200
                    then (Inr False,
                          logging ERROR (''Login failed with status code ''
                                         @ str_int (status_code response) @ ''.'') w2)
                    else (Inr True, w2)))"

subsection \<open>scrape_page\<close>

text \<open>
  The loop over the rows. \<^verbatim>\<open>row.find('td', class_='text-right')\<close> is \<^verbatim>\<open>None\<close> when the row
  has no such cell, and \<^verbatim>\<open>.a\<close> on \<^verbatim>\<open>None\<close> raises \<^verbatim>\<open>AttributeError\<close>; \<^verbatim>\<open>.a\<close> on a tag is
  the first anchor below it or \<^verbatim>\<open>None\<close>; a tag is always truthy; \<^verbatim>\<open>link_elem['href']\<close>
  raises \<^verbatim>\<open>KeyError\<close> when the anchor has no such attribute.
\<close>

fun collect_links :: "html list \<Rightarrow> string list \<Rightarrow> exn + string list" where
  "collect_links [] links = Inr links"
| "collect_links (row # rows) links =
     (case find_first ''td'' (class_is ''text-right'') (contents row) of
        None \<Rightarrow> Inl (AttributeError ''a'')
      | Some cell \<Rightarrow>
          (case find_first ''a'' (\<lambda>t. True) (contents cell) of
             None \<Rightarrow> collect_links rows links
           | Some link_elem \<Rightarrow>
               (case map_of (attrs link_elem) ''href'' of
                  None \<Rightarrow> Inl (KeyError ''href'')
                | Some href \<Rightarrow> collect_links rows (links @ [BASE_URL @ href]))))"

definition sleep :: "nat \<Rightarrow> world \<Rightarrow> world" where
  "sleep secs w = w\<lparr>slept := slept w + secs\<rparr>"

text \<open>The page's URL: the listing URL itself for page 1, with a query for the later pages.\<close>

definition page_url :: "int \<Rightarrow> string" where
  "page_url page_number =
     (if page_number > 1 then SERVICES_URL @ ''?page='' @ str_int page_number
      else SERVICES_URL)"

text \<open>The rows of the parsed page and the loop over them.\<close>

definition extract_links :: "html list \<Rightarrow> exn + string list" where
  "extract_links doc = collect_links (find_all ''tr'' (class_is ''toSort'') doc) []"

definition scrape_page :: "remote \<Rightarrow> int \<Rightarrow> world \<Rightarrow> (exn + string list) \<times> world" where
  "scrape_page srv page_number w =
     (case session_get srv (page_url page_number) w of
        (Inl e, w1) \<Rightarrow> (Inl e, w1)
      | (Inr response, w1) \<Rightarrow>
          (case raise_for_status response of
             Inl e \<Rightarrow> (Inl e, w1)
           | Inr _ \<Rightarrow>
               (case extract_links (soup response) of
                  Inl e \<Rightarrow> (Inl e, w1)
                | Inr links \<Rightarrow> (Inr links, sleep DELAY w1))))"

subsection \<open>The CSV writer\<close>

text \<open>
  \<^verbatim>\<open>csv.writer\<close> with its default dialect: fields joined by commas, a field quoted when it
  holds a comma, a double quote, a carriage return or a line feed (quotes doubled), a row
  made of one empty field written as two quotes, and every row ended by CR LF. The file
  is opened with \<^verbatim>\<open>newline=''\<close>, so the line ends are written as they are.
\<close>

definition csv_special :: "char \<Rightarrow> bool" where
  "csv_special c = (c = CHR '','' \<or> c = CHR 0x22 \<or> c = CHR 0x0D \<or> c = CHR 0x0A)"

definition csv_field :: "string \<Rightarrow> string" where
  "csv_field f =
     (if list_ex csv_special f
      then CHR 0x22 # concat (map (\<lambda>c. if c = CHR 0x22 then [c, c] else [c]) f) @ [CHR 0x22]
      else f)"

fun csv_join :: "string list \<Rightarrow> string" where
  "csv_join [] = []"
| "csv_join [f] = f"
| "csv_join (f # g # fs) = f @ CHR '','' # csv_join (g # fs)"

definition csv_writerow :: "string list \<Rightarrow> string" where
  "csv_writerow row =
     (if row = [[]] then [CHR 0x22, CHR 0x22] else csv_join (map csv_field row))
     @ [CHR 0x0D, CHR 0x0A]"

text \<open>Opening a file for writing creates it empty or truncates it; a write appends.\<close>

definition open_w :: "string \<Rightarrow> world \<Rightarrow> world" where
  "open_w filename w = w\<lparr>files := (files w)(filename \<mapsto> [])\<rparr>"

definition file_write :: "string \<Rightarrow> string \<Rightarrow> world \<Rightarrow> world" where
  "file_write filename s w =
     w\<lparr>files := (files w)(filename \<mapsto> (case files w filename of None \<Rightarrow> [] | Some c \<Rightarrow> c) @ s)\<rparr>"

fun write_rows :: "string \<Rightarrow> string list \<Rightarrow> world \<Rightarrow> world" where
  "write_rows filename [] w = w"
| "write_rows filename (link # links) w =
     write_rows filename links (file_write filename (csv_writerow [link]) w)"

subsection \<open>main\<close>

text \<open>The loop \<^verbatim>\<open>for page in range(1, TOTAL_PAGES + 1)\<close>, stopped by the first exception.\<close>

fun scrape_pages ::
  "remote \<Rightarrow> int list \<Rightarrow> string list \<Rightarrow> world \<Rightarrow> (exn + string list) \<times> world" where
  "scrape_pages srv [] tos_links w = (Inr tos_links, w)"
| "scrape_pages srv (page # pages) tos_links w =
     (case scrape_page srv page w of
        (Inl e, w1) \<Rightarrow> (Inl e, w1)
      | (Inr links, w1) \<Rightarrow> scrape_pages srv pages (tos_links @ links) w1)"

text \<open>
  \<open>main_with\<close> is the body of \<^verbatim>\<open>main\<close> with the page count as a parameter; \<open>main\<close> runs it
  with the module's constant.
\<close>

definition main_with :: "int \<Rightarrow> remote \<Rightarrow> world \<Rightarrow> (exn + unit) \<times> world" where
  "main_with total_pages srv w =
     (let email = ''YOUR_EMAIL''; password = ''YOUR_PASSWORD'' in
      case login srv email password w of
        (Inl e, w1) \<Rightarrow> (Inl e, w1)
      | (Inr ok, w1) \<Rightarrow>
          if \<not> ok then (Inr (), logging ERROR ''Login failed. Exiting.'' w1)
          else
            (case scrape_pages srv [1..total_pages] [] w1 of
               (Inl e, w2) \<Rightarrow> (Inl e, w2)
             | (Inr tos_links, w2) \<Rightarrow>
                 (let filename = ''tos_links.csv'';
                      w3 = open_w filename w2;
                      w4 = file_write filename (csv_writerow [''ToS Links'']) w3;
                      w5 = write_rows filename tos_links w4
                  in (Inr (), logging INFO (''Links saved to '' @ filename) w5))))"

definition main :: "remote \<Rightarrow> world \<Rightarrow> (exn + unit) \<times> world" where
  "main = main_with TOTAL_PAGES"

subsection \<open>Reading the output back\<close>

text \<open>
  The text of a file that holds the header row and one row for each link, and the number
  a decimal numeral stands for; both are used to state what the script produces.
\<close>

definition csv_text :: "string list \<Rightarrow> string" where
  "csv_text links =
     csv_writerow [''ToS Links''] @ concat (map (\<lambda>link. csv_writerow [link]) links)"

definition digit_val :: "char \<Rightarrow> nat" where
  "digit_val c = of_char c - 48"

definition nat_of_str :: "string \<Rightarrow> nat" where
  "nat_of_str s = foldl (\<lambda>a c. 10 * a + digit_val c) 0 s"

text \<open>
  What the loop looks at in a row: the first right-aligned cell below it, the first anchor
  below that cell, and the anchor's \<^verbatim>\<open>href\<close>.
\<close>

definition row_cell :: "html \<Rightarrow> html option" where
  "row_cell row = find_first ''td'' (class_is ''text-right'') (contents row)"

definition row_anchor :: "html \<Rightarrow> html option" where
  "row_anchor row =
     (case row_cell row of None \<Rightarrow> None
      | Some cell \<Rightarrow> find_first ''a'' (\<lambda>t. True) (contents cell))"

definition has_anchor :: "html \<Rightarrow> bool" where
  "has_anchor row = (row_anchor row \<noteq> None)"

definition row_href :: "html \<Rightarrow> string option" where
  "row_href row =
     (case row_anchor row of None \<Rightarrow> None | Some link_elem \<Rightarrow> map_of (attrs link_elem) ''href'')"

subsection \<open>Example sites\<close>

text \<open>
  A login page whose token input carries the given extra attributes, a listing page
  built from rows, and four kinds of sortable row: one whose right-aligned cell holds
  an anchor, one whose right-aligned cell holds no anchor, one whose anchor has no
  \<^verbatim>\<open>href\<close>, and one with no right-aligned cell at all.
\<close>

definition login_form :: "(string \<times> string) list \<Rightarrow> html list" where
  "login_form as =
     [Tag ''html'' [] []
        [Tag ''form'' [(''action'', ''/users/sign_in'')] []
           [Tag ''input'' [(''name'', ''user[email]'')] [] [],
            Tag ''input'' ((''name'', ''authenticity_token'') # as) [] []]]]"

definition login_page_without_token :: "html list" where
  "login_page_without_token =
     [Tag ''html'' [] []
        [Tag ''form'' [] [] [Tag ''input'' [(''name'', ''user[email]'')] [] []]]]"

definition link_row :: "string \<Rightarrow> html" where
  "link_row href =
     Tag ''tr'' [] [''toSort'']
       [Tag ''td'' [] [] [NavigableString ''service''],
        Tag ''td'' [] [''text-right'']
          [Tag ''a'' [(''href'', href)] [''btn''] [NavigableString ''View'']]]"

definition plain_row :: html where
  "plain_row =
     Tag ''tr'' [] [''toSort''] [Tag ''td'' [] [''text-right''] [NavigableString ''none'']]"

definition hrefless_row :: html where
  "hrefless_row =
     Tag ''tr'' [] [''toSort'']
       [Tag ''td'' [] [''text-right''] [Tag ''a'' [(''name'', ''top'')] [] []]]"

definition bare_row :: html where
  "bare_row = Tag ''tr'' [] [''toSort''] [Tag ''td'' [] [] [NavigableString ''none'']]"

definition listing :: "html list \<Rightarrow> html list" where
  "listing rows =
     [Tag ''table'' [] [''table'']
        (Tag ''tr'' [] [] [Tag ''th'' [] [] [NavigableString ''Service'']] # rows)]"

definition page :: "int \<Rightarrow> html list \<Rightarrow> response" where
  "page st doc = \<lparr>status_code = st, location = None, soup = doc\<rparr>"

definition redirect :: "int \<Rightarrow> string \<Rightarrow> response" where
  "redirect st url = \<lparr>status_code = st, location = Some url, soup = []\<rparr>"

text \<open>
  A site answers the login form, the login submission (with the given status) and the
  listing pages it has; every other URL is not found.
\<close>

definition site :: "response \<Rightarrow> int \<Rightarrow> (string \<times> response) list \<Rightarrow> remote" where
  "site login_page post_status pages req =
     (case req of
        GET url \<Rightarrow>
          if url = LOGIN_URL then login_page
          else (case map_of pages url of Some r \<Rightarrow> r | None \<Rightarrow> page 404 [])
      | POST url payload \<Rightarrow> page post_status [])"

definition three_pages :: "(string \<times> response) list" where
  "three_pages =
     [(page_url 1, page 200 (listing [link_row ''/services/1'', plain_row,
                                      link_row ''/services/2''])),
      (page_url 2, page 200 (listing [])),
      (page_url 3, page 200 (listing [link_row ''/services/3'']))]"

definition good_site :: remote where
  "good_site = site (page 200 (login_form [(''value'', ''tok'')])) 200 three_pages"

definition rejecting_site :: remote where
  "rejecting_site = site (page 200 (login_form [(''value'', ''tok'')])) 401 three_pages"

definition tokenless_site :: remote where
  "tokenless_site = site (page 200 login_page_without_token) 200 three_pages"

definition valueless_site :: remote where
  "valueless_site = site (page 200 (login_form [])) 200 three_pages"

definition login_down_site :: remote where
  "login_down_site = site (page 503 []) 200 three_pages"

definition broken_site :: remote where
  "broken_site =
     site (page 200 (login_form [(''value'', ''tok'')])) 200
       [(page_url 1, page 200 (listing [link_row ''/services/1''])),
        (page_url 2, page 500 []),
        (page_url 3, page 200 (listing [link_row ''/services/3'']))]"

text \<open>
  A site that answers the login submission with a redirect to its front page, as sign-in
  forms commonly do, and one whose login submission is redirected to itself for ever.
\<close>

definition redirecting_site :: remote where
  "redirecting_site req =
     (case req of
        GET url \<Rightarrow>
          if url = LOGIN_URL then page 200 (login_form [(''value'', ''tok'')])
          else if url = BASE_URL @ ''/'' then page 200 []
          else page 404 []
      | POST url payload \<Rightarrow> redirect 302 (BASE_URL @ ''/''))"

definition looping_site :: remote where
  "looping_site req =
     (case req of
        GET url \<Rightarrow>
          if url = LOGIN_URL then page 200 (login_form [(''value'', ''tok'')])
          else page 404 []
      | POST url payload \<Rightarrow> redirect 307 LOGIN_URL)"

definition world0 :: world where
  "world0 = \<lparr>requests = [], followed = [], logged = [], slept = 0, files = Map.empty\<rparr>"

definition stale_world :: world where
  "stale_world = world0\<lparr>files := [''tos_links.csv'' \<mapsto> ''old contents'']\<rparr>"

section \<open>Properties\<close>

subsection \<open>What each step leaves alone, and what its result depends on\<close>

text \<open>
  No step before the write phase touches the file system, and whether a step returns or
  raises depends on the site's answers only, not on the trace, the log or the files.
\<close>

lemma resolve_redirects_direct:
  "\<not> is_redirect resp \<Longrightarrow> resolve_redirects srv n req resp = ([], Inr resp)"
  by (simp add: resolve_redirects.simps get_redirect_target_def)

lemma session_send_direct:
  "\<not> is_redirect (srv req) \<Longrightarrow> session_send srv req = ([], Inr (srv req))"
  by (simp add: session_send_def resolve_redirects_direct)

lemma error_not_redirect: "400 \<le> status_code resp \<Longrightarrow> \<not> is_redirect resp"
  by (auto simp: is_redirect_def)

lemma page_not_redirect: "\<not> is_redirect (page st doc)"
  by (simp add: is_redirect_def page_def)

lemma session_get_eq:
  "session_get srv url w =
     (snd (session_send srv (GET url)),
      w\<lparr>requests := requests w @ [GET url],
        followed := followed w @ fst (session_send srv (GET url))\<rparr>)"
  by (simp add: session_get_def split: prod.splits)

lemma session_post_eq:
  "session_post srv url payload w =
     (snd (session_send srv (POST url payload)),
      w\<lparr>requests := requests w @ [POST url payload],
        followed := followed w @ fst (session_send srv (POST url payload))\<rparr>)"
  by (simp add: session_post_def split: prod.splits)

lemma fetch_csrf_token_files: "files (snd (fetch_csrf_token srv w)) = files w"
  by (simp add: fetch_csrf_token_def session_get_eq logging_def
      split: sum.splits option.splits)

lemma fetch_csrf_token_fst: "fst (fetch_csrf_token srv w) = fst (fetch_csrf_token srv w')"
  by (simp add: fetch_csrf_token_def session_get_eq split: sum.splits option.splits)

lemma login_files: "files (snd (login srv email password w)) = files w"
  using fetch_csrf_token_files [of srv w]
  by (auto simp: login_def session_post_eq logging_def Let_def
      split: prod.splits sum.splits option.splits)

lemma login_fst: "fst (login srv email password w) = fst (login srv email password w')"
  using fetch_csrf_token_fst [of srv w w']
  by (auto simp: login_def session_post_eq Let_def
      split: prod.splits sum.splits option.splits)

lemma fst_scrape_page:
  "fst (scrape_page srv p w) =
     (case snd (session_send srv (GET (page_url p))) of
        Inl e \<Rightarrow> Inl e
      | Inr response \<Rightarrow>
          (case raise_for_status response of
             Inl e \<Rightarrow> Inl e
           | Inr _ \<Rightarrow> extract_links (soup response)))"
  by (simp add: scrape_page_def session_get_eq split: sum.splits)

lemma scrape_page_files: "files (snd (scrape_page srv p w)) = files w"
  by (simp add: scrape_page_def session_get_eq sleep_def split: sum.splits)

lemma scrape_page_requests:
  "requests (snd (scrape_page srv p w)) = requests w @ [GET (page_url p)]"
  by (simp add: scrape_page_def session_get_eq sleep_def split: sum.splits)

lemma scrape_pages_files: "files (snd (scrape_pages srv ps acc w)) = files w"
proof (induction ps arbitrary: acc w)
  case Nil
  show ?case by simp
next
  case (Cons p ps)
  show ?case
  proof (cases "scrape_page srv p w")
    case (Pair r w1)
    then have "files w1 = files w"
      using scrape_page_files [of srv p w] by simp
    with Pair Cons.IH show ?thesis
      by (cases r) simp_all
  qed
qed

lemma scrape_pages_fst:
  "fst (scrape_pages srv ps acc w) = fst (scrape_pages srv ps acc w')"
proof (induction ps arbitrary: acc w w')
  case Nil
  show ?case by simp
next
  case (Cons p ps)
  obtain r w1 where a: "scrape_page srv p w = (r, w1)" by (cases "scrape_page srv p w")
  obtain r' w1' where b: "scrape_page srv p w' = (r', w1')" by (cases "scrape_page srv p w'")
  have eq: "r' = r"
    using a b fst_scrape_page [of srv p w] fst_scrape_page [of srv p w'] by simp
  show ?case
  proof (cases r)
    case (Inl e)
    with a b eq show ?thesis by simp
  next
    case (Inr links)
    with a b eq Cons.IH [of "acc @ links" w1 w1'] show ?thesis by simp
  qed
qed

lemma scrape_pages_all:
  assumes "\<forall>p\<in>set ps. \<exists>r. snd (session_send srv (GET (page_url p))) = Inr r
                     \<and> raise_for_status r = Inr ()
                     \<and> extract_links (soup r) = Inr (ls p)"
  shows "fst (scrape_pages srv ps acc w) = Inr (acc @ concat (map ls ps))"
  using assms
proof (induction ps arbitrary: acc w)
  case Nil
  show ?case by simp
next
  case (Cons p ps)
  obtain r w1 where a: "scrape_page srv p w = (r, w1)" by (cases "scrape_page srv p w")
  have "r = Inr (ls p)"
    using a fst_scrape_page [of srv p w] Cons.prems by auto
  with a Cons show ?case by simp
qed

lemma scrape_pages_fails:
  assumes "p \<in> set ps" and "fst (scrape_page srv p w0) = Inl e"
  shows "\<exists>e'. fst (scrape_pages srv ps acc w) = Inl e'"
  using assms(1)
proof (induction ps arbitrary: acc w)
  case Nil
  then show ?case by simp
next
  case (Cons q ps)
  obtain r w1 where a: "scrape_page srv q w = (r, w1)" by (cases "scrape_page srv q w")
  show ?case
  proof (cases r)
    case (Inl e')
    with a show ?thesis by simp
  next
    case (Inr links)
    have "q \<noteq> p"
    proof
      assume "q = p"
      then have "fst (scrape_page srv p w) = fst (scrape_page srv p w0)"
        by (simp add: fst_scrape_page)
      with a Inr assms(2) \<open>q = p\<close> show False by simp
    qed
    with Cons.prems have "p \<in> set ps" by simp
    from Cons.IH [OF this] a Inr show ?thesis by simp
  qed
qed

lemma scrape_pages_first_failure:
  assumes "\<forall>q\<in>set qs. \<exists>r. snd (session_send srv (GET (page_url q))) = Inr r
                     \<and> raise_for_status r = Inr ()
                     \<and> extract_links (soup r) = Inr (ls q)"
      and "fst (scrape_page srv p w0) = Inl e"
  shows "fst (scrape_pages srv (qs @ p # rs) acc w) = Inl e"
  using assms(1)
proof (induction qs arbitrary: acc w)
  case Nil
  obtain r w1 where a: "scrape_page srv p w = (r, w1)" by (cases "scrape_page srv p w")
  have "r = Inl e"
    using a assms(2) fst_scrape_page [of srv p w] fst_scrape_page [of srv p w0] by simp
  with a show ?case by simp
next
  case (Cons q qs)
  obtain r w1 where a: "scrape_page srv q w = (r, w1)" by (cases "scrape_page srv q w")
  have "r = Inr (ls q)"
    using a fst_scrape_page [of srv q w] Cons.prems by auto
  with a Cons show ?case by simp
qed

lemma write_rows_files:
  "files w filename = Some c \<Longrightarrow>
   files (write_rows filename links w)
     = (files w)(filename \<mapsto> c @ concat (map (\<lambda>link. csv_writerow [link]) links))"
proof (induction links arbitrary: w c)
  case Nil
  then show ?case by (simp add: fun_upd_idem)
next
  case (Cons l links)
  let ?w' = "file_write filename (csv_writerow [l]) w"
  have a: "files ?w' = (files w)(filename \<mapsto> c @ csv_writerow [l])"
    using Cons.prems by (simp add: file_write_def)
  then have b: "files ?w' filename = Some (c @ csv_writerow [l])"
    by simp
  show ?case
    using Cons.IH [OF b] a by (simp add: fun_eq_iff)
qed

lemma main_with_files:
  "files (snd (main_with n srv w)) =
     (case fst (login srv ''YOUR_EMAIL'' ''YOUR_PASSWORD'' w) of
        Inr True \<Rightarrow>
          (case fst (scrape_pages srv [1..n] [] w') of
             Inr tos_links \<Rightarrow> (files w)(''tos_links.csv'' \<mapsto> csv_text tos_links)
           | Inl e \<Rightarrow> files w)
      | _ \<Rightarrow> files w)"
proof (cases "login srv ''YOUR_EMAIL'' ''YOUR_PASSWORD'' w")
  case (Pair r w1)
  then have f1: "files w1 = files w"
    using login_files [of srv "''YOUR_EMAIL''" "''YOUR_PASSWORD''" w] by simp
  show ?thesis
  proof (cases "r = Inr True")
    case False
    with Pair f1 show ?thesis
      by (cases r) (auto simp: main_with_def logging_def)
  next
    case True
    obtain r2 w2 where sp: "scrape_pages srv [1..n] [] w1 = (r2, w2)"
      by (cases "scrape_pages srv [1..n] [] w1")
    then have f2: "files w2 = files w1"
      using scrape_pages_files [of srv "[1..n]" "[]" w1] by simp
    have r2: "fst (scrape_pages srv [1..n] [] w') = r2"
      using sp scrape_pages_fst [of srv "[1..n]" "[]" w' w1] by simp
    show ?thesis
    proof (cases r2)
      case (Inl e)
      with Pair True sp f1 f2 r2 show ?thesis
        by (simp add: main_with_def)
    next
      case (Inr tos_links)
      have "files (open_w ''tos_links.csv'' w2) = (files w)(''tos_links.csv'' \<mapsto> [])"
        using f1 f2 by (simp add: open_w_def)
      then have "files (file_write ''tos_links.csv'' (csv_writerow [''ToS Links''])
                   (open_w ''tos_links.csv'' w2)) ''tos_links.csv''
                 = Some (csv_writerow [''ToS Links''])"
        by (simp add: file_write_def)
      from write_rows_files [OF this, of tos_links]
      have "files (write_rows ''tos_links.csv'' tos_links
                    (file_write ''tos_links.csv'' (csv_writerow [''ToS Links''])
                       (open_w ''tos_links.csv'' w2)))
            = (files w)(''tos_links.csv'' \<mapsto> csv_text tos_links)"
        using f1 f2 by (simp add: file_write_def open_w_def csv_text_def)
      with Pair True sp r2 Inr show ?thesis
        by (simp add: main_with_def logging_def Let_def)
    qed
  qed
qed

subsection \<open>Decimal numerals\<close>

lemma digit_val_digit_char: "d < 10 \<Longrightarrow> digit_val (digit_char d) = d"
proof -
  assume "d < 10"
  then have "d \<in> {0, 1, 2, 3, 4, 5, 6, 7, 8, 9}" by auto
  then show ?thesis
    by (auto simp: digit_val_def digit_char_def)
qed

lemma nat_of_str_snoc: "nat_of_str (s @ [c]) = 10 * nat_of_str s + digit_val c"
  by (simp add: nat_of_str_def)

lemma nat_of_str_str_nat: "nat_of_str (str_nat n) = n"
proof (induction n rule: str_nat.induct)
  case (1 n)
  show ?case
  proof (cases "n < 10")
    case True
    then show ?thesis
      using nat_of_str_snoc [of "[]" "digit_char n"]
      by (simp add: str_nat.simps [of n] digit_val_digit_char nat_of_str_def)
  next
    case False
    with 1 show ?thesis
      by (simp add: str_nat.simps [of n] nat_of_str_snoc digit_val_digit_char)
  qed
qed

subsection \<open>fetch_csrf_token: the absent token\<close>

text \<open>
  C10. \<^verbatim>\<open>fetch_csrf_token\<close> returns \<^verbatim>\<open>None\<close> only when the login page, as the
  session hands it over, holds no \<^verbatim>\<open>input\<close> element named \<^verbatim>\<open>authenticity_token\<close> (and,
  once the page has been fetched without an HTTP error, it does return \<^verbatim>\<open>None\<close> then).
  When the element that \<^verbatim>\<open>find\<close> selects has no \<^verbatim>\<open>value\<close> attribute, the attribute
  lookup raises \<^verbatim>\<open>KeyError\<close>; no absent value is returned.
\<close>

theorem fetch_csrf_token_absent:
  "(fst (fetch_csrf_token srv w) = Inr None \<longrightarrow>
      (\<exists>response. snd (session_send srv (GET LOGIN_URL)) = Inr response
         \<and> (\<forall>t \<in> set (descendants (soup response)).
               \<not> (tag_name t = ''input'' \<and> attr_is ''name'' ''authenticity_token'' t))))
   \<and> (\<forall>response.
        snd (session_send srv (GET LOGIN_URL)) = Inr response
        \<and> raise_for_status response = Inr () \<longrightarrow>
        ((\<forall>t \<in> set (descendants (soup response)).
            \<not> (tag_name t = ''input'' \<and> attr_is ''name'' ''authenticity_token'' t))
         \<longrightarrow> fst (fetch_csrf_token srv w) = Inr None)
        \<and> (\<forall>token_input.
           find_first ''input'' (attr_is ''name'' ''authenticity_token'') (soup response)
             = Some token_input
           \<and> map_of (attrs token_input) ''value'' = None
           \<longrightarrow> fst (fetch_csrf_token srv w) = Inl (KeyError ''value'')))"
  by (auto simp: fetch_csrf_token_def session_get_eq find_first_def find_all_def
      filter_empty_conv split: sum.splits option.splits list.splits)

theorem fetch_csrf_token_absent_witness:
  "fst (fetch_csrf_token tokenless_site world0) = Inr None
   \<and> snd (session_send valueless_site (GET LOGIN_URL)) = Inr (page 200 (login_form []))
   \<and> raise_for_status (page 200 (login_form [])) = Inr ()
   \<and> find_first ''input'' (attr_is ''name'' ''authenticity_token'')
        (soup (page 200 (login_form [])))
      = Some (Tag ''input'' [(''name'', ''authenticity_token'')] [] [])
   \<and> fst (fetch_csrf_token valueless_site world0) = Inl (KeyError ''value'')"
proof -
  have sent: "snd (session_send valueless_site (GET LOGIN_URL)) = Inr (page 200 (login_form []))"
    by (simp add: session_send_direct page_not_redirect valueless_site_def site_def)
  have ok: "raise_for_status (page 200 (login_form [])) = Inr ()"
    by (simp add: raise_for_status_def page_def)
  have found: "find_first ''input'' (attr_is ''name'' ''authenticity_token'')
        (soup (page 200 (login_form [])))
      = Some (Tag ''input'' [(''name'', ''authenticity_token'')] [] [])"
    by (simp add: page_def login_form_def find_first_def find_all_def attr_is_def)
  have sent': "snd (session_send tokenless_site (GET LOGIN_URL))
                 = Inr (page 200 login_page_without_token)"
    by (simp add: session_send_direct page_not_redirect tokenless_site_def site_def)
  have ok': "raise_for_status (page 200 login_page_without_token) = Inr ()"
    by (simp add: raise_for_status_def page_def)
  have none: "\<forall>t \<in> set (descendants (soup (page 200 login_page_without_token))).
         \<not> (tag_name t = ''input'' \<and> attr_is ''name'' ''authenticity_token'' t)"
    by (simp add: page_def login_page_without_token_def attr_is_def)
  show ?thesis
    using fetch_csrf_token_absent [of tokenless_site world0] sent' ok' none
      fetch_csrf_token_absent [of valueless_site world0] sent ok found
    by simp
qed

subsection \<open>scrape_page: the URL requested\<close>

text \<open>
  C7. For every positive page index, \<^verbatim>\<open>scrape_page\<close> makes exactly one request on
  the session: a GET of the listing URL itself when the index is 1, and of the listing
  URL followed by
  \<^verbatim>\<open>?page=\<close> and the decimal numeral of the index when the index is greater; read back
  as a number, that numeral is the index.
\<close>

theorem scrape_page_request_url:
  assumes "1 \<le> p"
  shows "requests (snd (scrape_page srv p w))
           = requests w @ [GET (if p = 1 then SERVICES_URL
                                else SERVICES_URL @ ''?page='' @ str_int p)]
         \<and> int (nat_of_str (str_int p)) = p"
  using assms
  by (simp add: scrape_page_requests page_url_def str_int_def nat_of_str_str_nat)

theorem scrape_page_request_url_witness:
  "(1::int) \<le> 1 \<and> (1::int) \<le> 17
   \<and> requests (snd (scrape_page good_site 1 world0)) = [GET ''https://edit.tosdr.org/services'']
   \<and> requests (snd (scrape_page good_site 17 world0))
       = [GET ''https://edit.tosdr.org/services?page=17'']"
  using scrape_page_request_url [of 1 good_site world0]
    scrape_page_request_url [of 17 good_site world0]
  by (simp add: world0_def SERVICES_URL_def BASE_URL_def str_int_def str_nat.simps
      digit_char_def)

subsection \<open>login: the status of the submission decides\<close>

text \<open>
  C8. When the token has been fetched and is not empty, so that the form is submitted,
  \<^verbatim>\<open>login\<close> returns true exactly when the status of the response that
  \<^verbatim>\<open>session.post\<close> hands back is 200; where the site redirects the submission, that is
  the last response of the chain. For every other status it logs the status code and
  returns false. Nothing but the status of that response is consulted. When the
  submission gives no response at all (too many redirects), the exception leaves
  \<^verbatim>\<open>login\<close>.
\<close>

theorem login_post_status:
  assumes "fst (fetch_csrf_token srv w) = Inr (Some csrf_token)" and "csrf_token \<noteq> []"
  shows "let payload = [(''user[email]'', email), (''user[password]'', password),
                        (''authenticity_token'', csrf_token)];
             w1 = snd (fetch_csrf_token srv w);
             w2 = w1\<lparr>requests := requests w1 @ [POST LOGIN_URL payload],
                     followed := followed w1
                                 @ fst (session_send srv (POST LOGIN_URL payload))\<rparr>
         in (\<forall>response.
               snd (session_send srv (POST LOGIN_URL payload)) = Inr response \<longrightarrow>
               fst (login srv email password w) = Inr (status_code response = 200)
               \<and> (status_code response = 200 \<longrightarrow> snd (login srv email password w) = w2)
               \<and> (status_code response \<noteq> 200 \<longrightarrow>
                    snd (login srv email password w)
                      = w2\<lparr>logged := logged w2
                             @ [(ERROR, ''Login failed with status code ''
                                        @ str_int (status_code response) @ ''.'')]\<rparr>))
            \<and> (\<forall>e. snd (session_send srv (POST LOGIN_URL payload)) = Inl e \<longrightarrow>
                   login srv email password w = (Inl e, w2))"
  using assms
  by (cases "fetch_csrf_token srv w")
     (simp add: login_def session_post_eq logging_def Let_def)

text \<open>
  The example sites at work: a submission answered with 200, one answered with 401, one
  answered with a redirect to a page that answers 200, and one redirected for ever.
\<close>

theorem login_post_status_witness:
  "fst (fetch_csrf_token good_site world0) = Inr (Some ''tok'') \<and> ''tok'' \<noteq> []
   \<and> fst (login good_site ''me'' ''secret'' world0) = Inr True
   \<and> fst (fetch_csrf_token rejecting_site world0) = Inr (Some ''tok'')
   \<and> fst (login rejecting_site ''me'' ''secret'' world0) = Inr False
   \<and> logged (snd (login rejecting_site ''me'' ''secret'' world0))
       = [(ERROR, ''Login failed with status code 401.'')]
   \<and> fst (fetch_csrf_token redirecting_site world0) = Inr (Some ''tok'')
   \<and> status_code (redirecting_site (POST LOGIN_URL
         [(''user[email]'', ''me''), (''user[password]'', ''secret''),
          (''authenticity_token'', ''tok'')])) = 302
   \<and> login redirecting_site ''me'' ''secret'' world0
       = (Inr True,
          world0\<lparr>requests := [GET LOGIN_URL,
                      POST LOGIN_URL [(''user[email]'', ''me''), (''user[password]'', ''secret''),
                                      (''authenticity_token'', ''tok'')]],
                  followed := [GET ''https://edit.tosdr.org/'']\<rparr>)
   \<and> fst (fetch_csrf_token looping_site world0) = Inr (Some ''tok'')
   \<and> fst (login looping_site ''me'' ''secret'' world0) = Inl TooManyRedirects"
proof -
  let ?payload = "[(''user[email]'', ''me''), (''user[password]'', ''secret''),
                   (''authenticity_token'', ''tok'')]"
  have ne: "''tok'' \<noteq> []" by simp
  have g: "fetch_csrf_token good_site world0
             = (Inr (Some ''tok''), world0\<lparr>requests := [GET LOGIN_URL]\<rparr>)"
    by (simp add: fetch_csrf_token_def session_get_eq session_send_direct page_not_redirect is_redirect_def
        good_site_def site_def raise_for_status_def login_form_def find_first_def
        find_all_def attr_is_def world0_def page_def)
  have r: "fetch_csrf_token rejecting_site world0
             = (Inr (Some ''tok''), world0\<lparr>requests := [GET LOGIN_URL]\<rparr>)"
    by (simp add: fetch_csrf_token_def session_get_eq session_send_direct page_not_redirect is_redirect_def
        rejecting_site_def site_def raise_for_status_def login_form_def find_first_def
        find_all_def attr_is_def world0_def page_def)
  have d: "fetch_csrf_token redirecting_site world0
             = (Inr (Some ''tok''), world0\<lparr>requests := [GET LOGIN_URL]\<rparr>)"
    by (simp add: fetch_csrf_token_def session_get_eq session_send_direct page_not_redirect is_redirect_def
        redirecting_site_def raise_for_status_def login_form_def find_first_def
        find_all_def attr_is_def world0_def page_def)
  have l: "fetch_csrf_token looping_site world0
             = (Inr (Some ''tok''), world0\<lparr>requests := [GET LOGIN_URL]\<rparr>)"
    by (simp add: fetch_csrf_token_def session_get_eq session_send_direct page_not_redirect is_redirect_def
        looping_site_def raise_for_status_def login_form_def find_first_def
        find_all_def attr_is_def world0_def page_def)
  have gs: "session_send good_site (POST LOGIN_URL ?payload) = ([], Inr (page 200 []))"
    by (simp add: session_send_direct page_not_redirect is_redirect_def page_def good_site_def site_def)
  have rs: "session_send rejecting_site (POST LOGIN_URL ?payload) = ([], Inr (page 401 []))"
    by (simp add: session_send_direct page_not_redirect is_redirect_def page_def rejecting_site_def site_def)
  have ds: "session_send redirecting_site (POST LOGIN_URL ?payload)
              = ([GET ''https://edit.tosdr.org/''], Inr (page 200 []))"
    by code_simp
  have ls: "snd (session_send looping_site (POST LOGIN_URL ?payload)) = Inl TooManyRedirects"
    by code_simp
  have hop: "status_code (redirecting_site (POST LOGIN_URL ?payload)) = 302"
    by (simp add: redirecting_site_def redirect_def)
  have s: "str_int 401 = ''401''"
    by (simp add: str_int_def str_nat.simps digit_char_def)
  show ?thesis
    using login_post_status [of good_site world0 "''tok''" "''me''" "''secret''"]
      login_post_status [of rejecting_site world0 "''tok''" "''me''" "''secret''"]
      login_post_status [of redirecting_site world0 "''tok''" "''me''" "''secret''"]
      login_post_status [of looping_site world0 "''tok''" "''me''" "''secret''"]
      g r d l gs rs ds ls hop s ne
    by (simp add: Let_def page_def world0_def prod_eq_iff)
qed

subsection \<open>What the example sites answer\<close>

lemma good_login:
  "fst (login good_site ''YOUR_EMAIL'' ''YOUR_PASSWORD'' w) = Inr True"
  by (simp add: session_send_direct is_redirect_def login_def fetch_csrf_token_def session_get_eq session_post_eq
      good_site_def site_def page_def raise_for_status_def login_form_def
      find_first_def find_all_def attr_is_def)

lemma broken_login:
  "fst (login broken_site ''YOUR_EMAIL'' ''YOUR_PASSWORD'' w) = Inr True"
  by (simp add: session_send_direct is_redirect_def login_def fetch_csrf_token_def session_get_eq session_post_eq
      broken_site_def site_def page_def raise_for_status_def login_form_def
      find_first_def find_all_def attr_is_def)

lemma page_urls:
  "page_url 1 = ''https://edit.tosdr.org/services''"
  "page_url 2 = ''https://edit.tosdr.org/services?page=2''"
  "page_url 3 = ''https://edit.tosdr.org/services?page=3''"
  by (simp_all add: page_url_def SERVICES_URL_def BASE_URL_def str_int_def str_nat.simps
      digit_char_def)

lemma login_url: "LOGIN_URL = ''https://edit.tosdr.org/users/sign_in''"
  by (simp add: LOGIN_URL_def BASE_URL_def)

lemma upto_1_3: "[1..3] = [1, 2, 3::int]"
  by (simp add: upto_rec1)

lemmas fixture_defs = listing_def link_row_def plain_row_def hrefless_row_def bare_row_def
  find_all_def find_first_def class_is_def row_cell_def row_anchor_def row_href_def
  has_anchor_def

subsection \<open>login: an HTTP error on the login page\<close>

text \<open>
  The login page answered with status 503: \<^verbatim>\<open>login\<close> does not return false, the
  \<^verbatim>\<open>HTTPError\<close> leaves it and leaves \<^verbatim>\<open>main\<close> as well.
\<close>

theorem login_get_error_counterexample:
  "status_code (login_down_site (GET LOGIN_URL)) = 503
   \<and> fst (login login_down_site ''YOUR_EMAIL'' ''YOUR_PASSWORD'' world0) = Inl (HTTPError 503)
   \<and> fst (login login_down_site ''YOUR_EMAIL'' ''YOUR_PASSWORD'' world0) \<noteq> Inr False
   \<and> fst (main login_down_site world0) = Inl (HTTPError 503)"
  by (simp add: session_send_direct is_redirect_def main_def main_with_def login_def fetch_csrf_token_def session_get_eq
      login_down_site_def site_def page_def raise_for_status_def)

text \<open>
  C1, as the code has it. When the GET of the login page is answered with a status that
  \<^verbatim>\<open>raise_for_status\<close> rejects (400 to 599), \<^verbatim>\<open>login\<close> returns nothing: the
  \<^verbatim>\<open>HTTPError\<close> raised in \<^verbatim>\<open>fetch_csrf_token\<close> passes through \<^verbatim>\<open>login\<close> and through
  \<^verbatim>\<open>main\<close>, neither of which catches it. The run ends with that exception after the one
  request (and what the session sent to follow redirects, if the site sent it elsewhere
  first); nothing is logged, no page is fetched and no file is written.
\<close>

theorem login_get_error_propagates:
  assumes "snd (session_send srv (GET LOGIN_URL)) = Inr response"
      and "400 \<le> status_code response"
      and "status_code response < 600"
  shows "login srv email password w
           = (Inl (HTTPError (status_code response)),
              w\<lparr>requests := requests w @ [GET LOGIN_URL],
                followed := followed w @ fst (session_send srv (GET LOGIN_URL))\<rparr>)
         \<and> main_with n srv w
           = (Inl (HTTPError (status_code response)),
              w\<lparr>requests := requests w @ [GET LOGIN_URL],
                followed := followed w @ fst (session_send srv (GET LOGIN_URL))\<rparr>)"
  using assms
  by (simp add: main_with_def login_def fetch_csrf_token_def session_get_eq
      raise_for_status_def)

theorem login_get_error_propagates_witness:
  "session_send login_down_site (GET LOGIN_URL) = ([], Inr (page 503 []))
   \<and> (400::int) \<le> 503 \<and> (503::int) < 600
   \<and> main login_down_site stale_world
       = (Inl (HTTPError 503), stale_world\<lparr>requests := [GET LOGIN_URL]\<rparr>)"
proof -
  have sent: "session_send login_down_site (GET LOGIN_URL) = ([], Inr (page 503 []))"
    by (simp add: session_send_direct page_not_redirect login_down_site_def site_def)
  then have s: "snd (session_send login_down_site (GET LOGIN_URL)) = Inr (page 503 [])"
    by simp
  have st: "status_code (page 503 []) = 503"
    by (simp add: page_def)
  show ?thesis
    using login_get_error_propagates [OF s, of "''YOUR_EMAIL''" "''YOUR_PASSWORD''"
        stale_world TOTAL_PAGES] sent st
    by (simp add: main_def stale_world_def world0_def)
qed

subsection \<open>main: login reports failure\<close>

lemma page_url_not_login: "page_url p \<noteq> LOGIN_URL"
  by (simp add: page_url_def LOGIN_URL_def SERVICES_URL_def BASE_URL_def)

lemma login_requests:
  "\<exists>rs. requests (snd (login srv email password w)) = requests w @ rs
        \<and> (\<forall>r\<in>set rs. r = GET LOGIN_URL \<or> (\<exists>payload. r = POST LOGIN_URL payload))"
  by (auto simp: login_def fetch_csrf_token_def session_get_eq session_post_eq logging_def
      Let_def split: sum.splits option.splits)

lemma login_slept: "slept (snd (login srv email password w)) = slept w"
  by (auto simp: login_def fetch_csrf_token_def session_get_eq session_post_eq logging_def
      Let_def split: sum.splits option.splits)

text \<open>
  C5. When \<^verbatim>\<open>login\<close> returns false, \<^verbatim>\<open>main\<close> logs the failure and returns at once:
  the world it leaves is the one \<^verbatim>\<open>login\<close> left plus that log record, so the file system
  is as it was before the run, nothing was slept, and the script asked the session for
  no listing page during the run.
\<close>

theorem main_login_failure:
  assumes "fst (login srv ''YOUR_EMAIL'' ''YOUR_PASSWORD'' w) = Inr False"
  shows "main_with n srv w
           = (Inr (), logging ERROR ''Login failed. Exiting.''
                        (snd (login srv ''YOUR_EMAIL'' ''YOUR_PASSWORD'' w)))
         \<and> files (snd (main_with n srv w)) = files w
         \<and> slept (snd (main_with n srv w)) = slept w
         \<and> (\<forall>p. GET (page_url p)
                 \<notin> set (drop (length (requests w)) (requests (snd (main_with n srv w)))))"
proof -
  obtain w1 where l: "login srv ''YOUR_EMAIL'' ''YOUR_PASSWORD'' w = (Inr False, w1)"
    using assms by (cases "login srv ''YOUR_EMAIL'' ''YOUR_PASSWORD'' w") simp
  then have m: "main_with n srv w = (Inr (), logging ERROR ''Login failed. Exiting.'' w1)"
    by (simp add: main_with_def)
  have f: "files w1 = files w"
    using l login_files [of srv "''YOUR_EMAIL''" "''YOUR_PASSWORD''" w] by simp
  have s: "slept w1 = slept w"
    using l login_slept [of srv "''YOUR_EMAIL''" "''YOUR_PASSWORD''" w] by simp
  obtain rs where rs: "requests w1 = requests w @ rs"
    and only: "\<forall>r\<in>set rs. r = GET LOGIN_URL \<or> (\<exists>payload. r = POST LOGIN_URL payload)"
    using l login_requests [of srv "''YOUR_EMAIL''" "''YOUR_PASSWORD''" w] by auto
  have "\<forall>p. GET (page_url p) \<notin> set rs"
    using only page_url_not_login by auto
  with m l f s rs show ?thesis
    by (simp add: logging_def)
qed

theorem main_login_failure_witness:
  "fst (login rejecting_site ''YOUR_EMAIL'' ''YOUR_PASSWORD'' stale_world) = Inr False
   \<and> fst (main rejecting_site stale_world) = Inr ()
   \<and> files (snd (main rejecting_site stale_world)) = files stale_world
   \<and> logged (snd (main rejecting_site stale_world))
       = [(ERROR, ''Login failed with status code 401.''), (ERROR, ''Login failed. Exiting.'')]"
proof -
  have l: "login rejecting_site ''YOUR_EMAIL'' ''YOUR_PASSWORD'' stale_world
           = (Inr False,
              stale_world\<lparr>requests := [GET LOGIN_URL,
                   POST LOGIN_URL [(''user[email]'', ''YOUR_EMAIL''),
                                   (''user[password]'', ''YOUR_PASSWORD''),
                                   (''authenticity_token'', ''tok'')]],
                 logged := [(ERROR, ''Login failed with status code 401.'')]\<rparr>)"
    by (simp add: session_send_direct is_redirect_def login_def fetch_csrf_token_def session_get_eq session_post_eq
        rejecting_site_def site_def page_def raise_for_status_def login_form_def
        find_first_def find_all_def attr_is_def logging_def stale_world_def world0_def
        str_int_def str_nat.simps digit_char_def)
  then have f: "fst (login rejecting_site ''YOUR_EMAIL'' ''YOUR_PASSWORD'' stale_world) = Inr False"
    by simp
  show ?thesis
    using main_login_failure [OF f, of TOTAL_PAGES] l
    by (simp add: main_def logging_def)
qed

subsection \<open>main: the result and the files of a run\<close>

lemma main_with_fst:
  "fst (main_with n srv w) =
     (case fst (login srv ''YOUR_EMAIL'' ''YOUR_PASSWORD'' w) of
        Inl e \<Rightarrow> Inl e
      | Inr ok \<Rightarrow>
          if \<not> ok then Inr ()
          else (case fst (scrape_pages srv [1..n] [] w') of
                  Inl e \<Rightarrow> Inl e
                | Inr tos_links \<Rightarrow> Inr ()))"
proof (cases "login srv ''YOUR_EMAIL'' ''YOUR_PASSWORD'' w")
  case (Pair r w1)
  obtain r2 w2 where sp: "scrape_pages srv [1..n] [] w1 = (r2, w2)"
    by (cases "scrape_pages srv [1..n] [] w1")
  then have "fst (scrape_pages srv [1..n] [] w') = r2"
    using scrape_pages_fst [of srv "[1..n]" "[]" w' w1] by simp
  with Pair sp show ?thesis
    by (auto simp: main_with_def Let_def split: sum.splits)
qed

lemma scrape_page_http_error:
  assumes "snd (session_send srv (GET (page_url p))) = Inr response"
      and "400 \<le> status_code response"
      and "status_code response < 600"
  shows "fst (scrape_page srv p w) = Inl (HTTPError (status_code response))"
  using assms by (simp add: fst_scrape_page raise_for_status_def)

text \<open>
  C4. After a successful login, if the GET of some listing page \<open>p\<close> among 1..n gives a
  response with a status that \<^verbatim>\<open>raise_for_status\<close> rejects (400 to 599), the run ends
  with an exception and the file system is as it was before the run: the write phase is
  never reached. When the pages before \<open>p\<close> were scraped without an exception, the
  exception that ends the run is the \<^verbatim>\<open>HTTPError\<close> of page \<open>p\<close>; nothing catches it.
\<close>

theorem main_page_fetch_error:
  assumes "fst (login srv ''YOUR_EMAIL'' ''YOUR_PASSWORD'' w) = Inr True"
      and "1 \<le> p" and "p \<le> n"
      and "snd (session_send srv (GET (page_url p))) = Inr response"
      and "400 \<le> status_code response"
      and "status_code response < 600"
  shows "(\<exists>e. fst (main_with n srv w) = Inl e)
         \<and> files (snd (main_with n srv w)) = files w
         \<and> ((\<forall>q\<in>set [1..p - 1].
                \<exists>r links. snd (session_send srv (GET (page_url q))) = Inr r
                  \<and> raise_for_status r = Inr ()
                  \<and> extract_links (soup r) = Inr links)
             \<longrightarrow> fst (main_with n srv w) = Inl (HTTPError (status_code response)))"
proof -
  let ?e = "HTTPError (status_code response)"
  have bad: "fst (scrape_page srv p w) = Inl ?e"
    using assms(4,5,6) by (rule scrape_page_http_error)
  have "p \<in> set [1..n]"
    using assms(2,3) by simp
  from scrape_pages_fails [OF this bad]
  obtain e' where e': "fst (scrape_pages srv [1..n] [] w) = Inl e'"
    by blast
  have raised: "fst (main_with n srv w) = Inl e'"
    using main_with_fst [of n srv w w] assms(1) e' by simp
  have kept: "files (snd (main_with n srv w)) = files w"
    using main_with_files [of n srv w w] assms(1) e' by simp
  have first: "fst (main_with n srv w) = Inl ?e"
    if ok: "\<forall>q\<in>set [1..p - 1].
              \<exists>r links. snd (session_send srv (GET (page_url q))) = Inr r
                \<and> raise_for_status r = Inr ()
                \<and> extract_links (soup r) = Inr links"
  proof -
    define ls where
      "ls q = (case fst (scrape_page srv q w) of Inr links \<Rightarrow> links | Inl e \<Rightarrow> [])" for q
    have ok': "\<forall>q\<in>set [1..p - 1].
                 \<exists>r. snd (session_send srv (GET (page_url q))) = Inr r
                   \<and> raise_for_status r = Inr ()
                   \<and> extract_links (soup r) = Inr (ls q)"
    proof
      fix q
      assume "q \<in> set [1..p - 1]"
      with ok obtain r links where r: "snd (session_send srv (GET (page_url q))) = Inr r"
        "raise_for_status r = Inr ()" "extract_links (soup r) = Inr links"
        by blast
      then have "ls q = links"
        by (simp add: ls_def fst_scrape_page)
      with r show "\<exists>r. snd (session_send srv (GET (page_url q))) = Inr r
                   \<and> raise_for_status r = Inr ()
                   \<and> extract_links (soup r) = Inr (ls q)"
        by simp
    qed
    have split: "[1..n] = [1..p - 1] @ p # [p + 1..n]"
      using assms(2,3) by (rule upto_split3)
    have "fst (scrape_pages srv [1..n] [] w) = Inl ?e"
      unfolding split using ok' bad by (rule scrape_pages_first_failure)
    then show ?thesis
      using main_with_fst [of n srv w w] assms(1) by simp
  qed
  from raised kept first show ?thesis by blast
qed

theorem main_page_fetch_error_witness:
  "fst (login broken_site ''YOUR_EMAIL'' ''YOUR_PASSWORD'' stale_world) = Inr True
   \<and> snd (session_send broken_site (GET (page_url 2))) = Inr (page 500 [])
   \<and> fst (main_with 3 broken_site stale_world) = Inl (HTTPError 500)
   \<and> files (snd (main_with 3 broken_site stale_world)) = files stale_world"
proof -
  have sent: "snd (session_send broken_site (GET (page_url 2))) = Inr (page 500 [])"
    by (simp add: session_send_direct page_not_redirect broken_site_def site_def page_urls
        login_url)
  have st: "status_code (page 500 []) = 500"
    by (simp add: page_def)
  have p1: "snd (session_send broken_site (GET (page_url 1)))
              = Inr (page 200 (listing [link_row ''/services/1'']))"
    by (simp add: session_send_direct page_not_redirect broken_site_def site_def page_urls
        login_url)
  have p1': "raise_for_status (page 200 (listing [link_row ''/services/1''])) = Inr ()
             \<and> extract_links (soup (page 200 (listing [link_row ''/services/1''])))
                 = Inr [''https://edit.tosdr.org/services/1'']"
    by (simp add: page_def raise_for_status_def extract_links_def listing_def link_row_def
        find_all_def find_first_def class_is_def BASE_URL_def)
  have before: "\<forall>q\<in>set [1..2 - 1].
                  \<exists>r links. snd (session_send broken_site (GET (page_url q))) = Inr r
                    \<and> raise_for_status r = Inr ()
                    \<and> extract_links (soup r) = Inr links"
    using p1 p1' by simp
  show ?thesis
    using main_page_fetch_error [where srv = broken_site and w = stale_world and p = 2
        and n = 3 and response = "page 500 []"] st before broken_login sent
    by simp
qed

text \<open>
  C3. On a successful run over pages 1..n (the login succeeded, and every page was
  fetched without an HTTP error and gave the links \<open>ls p\<close>), the output file holds the
  header row followed by one row for each link of \<open>ls 1\<close>, then of \<open>ls 2\<close>, and so on up
  to \<open>ls n\<close>, each page's links in the order \<^verbatim>\<open>scrape_page\<close> returned them: as many link
  rows as the pages gave links together, none dropped, none added.
\<close>

theorem main_writes_links_in_order:
  assumes "fst (login srv ''YOUR_EMAIL'' ''YOUR_PASSWORD'' w) = Inr True"
      and "\<forall>p\<in>set [1..n].
             \<exists>r. snd (session_send srv (GET (page_url p))) = Inr r
               \<and> raise_for_status r = Inr ()
               \<and> extract_links (soup r) = Inr (ls p)"
  shows "fst (main_with n srv w) = Inr ()
         \<and> (\<forall>p\<in>set [1..n]. \<forall>w'. fst (scrape_page srv p w') = Inr (ls p))
         \<and> files (snd (main_with n srv w))
             = (files w)(''tos_links.csv'' \<mapsto> csv_text (concat (map ls [1..n])))
         \<and> csv_text (concat (map ls [1..n]))
             = csv_writerow [''ToS Links'']
               @ concat (map (\<lambda>link. csv_writerow [link]) (concat (map ls [1..n])))
         \<and> length (concat (map ls [1..n])) = (\<Sum>p\<leftarrow>[1..n]. length (ls p))"
proof -
  have all: "fst (scrape_pages srv [1..n] [] w) = Inr (concat (map ls [1..n]))"
    using scrape_pages_all [OF assms(2), of "[]" w] by simp
  have a: "fst (main_with n srv w) = Inr ()"
    using main_with_fst [of n srv w w] assms(1) all by simp
  have b: "\<forall>p\<in>set [1..n]. \<forall>w'. fst (scrape_page srv p w') = Inr (ls p)"
    using assms(2) by (auto simp: fst_scrape_page)
  have c: "files (snd (main_with n srv w))
             = (files w)(''tos_links.csv'' \<mapsto> csv_text (concat (map ls [1..n])))"
    using main_with_files [of n srv w w] assms(1) all by simp
  have d: "length (concat (map ls [1..n])) = (\<Sum>p\<leftarrow>[1..n]. length (ls p))"
    by (simp add: length_concat comp_def)
  from a b c d show ?thesis
    by (simp add: csv_text_def)
qed

theorem main_writes_links_in_order_witness:
  "fst (login good_site ''YOUR_EMAIL'' ''YOUR_PASSWORD'' stale_world) = Inr True
   \<and> fst (main_with 3 good_site stale_world) = Inr ()
   \<and> fst (scrape_page good_site 1 world0)
       = Inr [''https://edit.tosdr.org/services/1'', ''https://edit.tosdr.org/services/2'']
   \<and> fst (scrape_page good_site 2 world0) = Inr []
   \<and> fst (scrape_page good_site 3 world0) = Inr [''https://edit.tosdr.org/services/3'']
   \<and> files (snd (main_with 3 good_site stale_world)) ''tos_links.csv''
       = Some (''ToS Links'' @ [CHR 0x0D, CHR 0x0A]
               @ ''https://edit.tosdr.org/services/1'' @ [CHR 0x0D, CHR 0x0A]
               @ ''https://edit.tosdr.org/services/2'' @ [CHR 0x0D, CHR 0x0A]
               @ ''https://edit.tosdr.org/services/3'' @ [CHR 0x0D, CHR 0x0A])"
proof -
  define ls :: "int \<Rightarrow> string list" where
    "ls p = (if p = 1 then [''https://edit.tosdr.org/services/1'',
                            ''https://edit.tosdr.org/services/2'']
             else if p = 3 then [''https://edit.tosdr.org/services/3''] else [])" for p
  have pages: "\<forall>p\<in>set [1..3].
                 \<exists>r. snd (session_send good_site (GET (page_url p))) = Inr r
                   \<and> raise_for_status r = Inr ()
                   \<and> extract_links (soup r) = Inr (ls p)"
    by (simp add: session_send_direct is_redirect_def upto_1_3 ls_def good_site_def three_pages_def site_def page_def page_urls
        login_url raise_for_status_def extract_links_def listing_def link_row_def
        plain_row_def find_all_def find_first_def class_is_def BASE_URL_def)
  have rendered: "csv_text (concat (map ls [1..3]))
       = ''ToS Links'' @ [CHR 0x0D, CHR 0x0A]
               @ ''https://edit.tosdr.org/services/1'' @ [CHR 0x0D, CHR 0x0A]
               @ ''https://edit.tosdr.org/services/2'' @ [CHR 0x0D, CHR 0x0A]
               @ ''https://edit.tosdr.org/services/3'' @ [CHR 0x0D, CHR 0x0A]"
    by (simp add: upto_1_3 ls_def csv_text_def csv_writerow_def csv_field_def csv_special_def)
  show ?thesis
    using main_writes_links_in_order [OF good_login pages, of stale_world] rendered good_login
    by (simp add: upto_1_3 ls_def)
qed

text \<open>
  C9. Running the pipeline a second time against a site that gives the same answers
  leaves the file system exactly as the first run left it, and ends the same way. What a
  run writes does not depend on the world it starts from: two runs from different worlds
  either both leave the files untouched or leave the same bytes in the output file.
\<close>

theorem main_idempotent:
  "fst (main_with n srv (snd (main_with n srv w))) = fst (main_with n srv w)
   \<and> files (snd (main_with n srv (snd (main_with n srv w)))) = files (snd (main_with n srv w))
   \<and> (files (snd (main_with n srv w)) = files w \<and> files (snd (main_with n srv w')) = files w'
      \<or> files (snd (main_with n srv w)) ''tos_links.csv''
          = files (snd (main_with n srv w')) ''tos_links.csv'')"
proof -
  let ?w1 = "snd (main_with n srv w)"
  let ?l = "fst (login srv ''YOUR_EMAIL'' ''YOUR_PASSWORD'' w)"
  let ?s = "fst (scrape_pages srv [1..n] [] w)"
  define out where
    "out = (case ?l of
              Inl e \<Rightarrow> None
            | Inr ok \<Rightarrow>
                if ok then (case ?s of Inl e \<Rightarrow> None | Inr links \<Rightarrow> Some (csv_text links))
                else None)"
  have gen: "files (snd (main_with n srv v))
               = (case out of None \<Rightarrow> files v | Some c \<Rightarrow> (files v)(''tos_links.csv'' \<mapsto> c))"
    for v
  proof -
    have "fst (login srv ''YOUR_EMAIL'' ''YOUR_PASSWORD'' v) = ?l"
      by (rule login_fst)
    then show ?thesis
      using main_with_files [of n srv v w]
      by (auto simp: out_def split: sum.splits bool.splits)
  qed
  have a: "fst (main_with n srv ?w1) = fst (main_with n srv w)"
    using main_with_fst [of n srv ?w1 w] main_with_fst [of n srv w w]
      login_fst [of srv "''YOUR_EMAIL''" "''YOUR_PASSWORD''" ?w1 w]
    by simp
  have b: "files (snd (main_with n srv ?w1)) = files ?w1"
    by (cases out) (simp_all add: gen)
  have c: "files ?w1 = files w \<and> files (snd (main_with n srv w')) = files w'
           \<or> files ?w1 ''tos_links.csv'' = files (snd (main_with n srv w')) ''tos_links.csv''"
    by (cases out) (simp_all add: gen)
  from a b c show ?thesis by blast
qed

theorem main_idempotent_witness:
  "files (snd (main_with 3 good_site (snd (main_with 3 good_site stale_world))))
     = files (snd (main_with 3 good_site stale_world))
   \<and> files (snd (main_with 3 good_site stale_world)) \<noteq> files stale_world
   \<and> files (snd (main_with 3 good_site stale_world)) ''tos_links.csv''
     = files (snd (main_with 3 good_site world0)) ''tos_links.csv''"
proof -
  have changed: "files (snd (main_with 3 good_site stale_world)) ''tos_links.csv''
                   \<noteq> files stale_world ''tos_links.csv''"
    by code_simp
  then have ne: "files (snd (main_with 3 good_site stale_world)) \<noteq> files stale_world"
    by auto
  show ?thesis
    using main_idempotent [of 3 good_site stale_world world0] ne by simp
qed

subsection \<open>scrape_page: the links of a page\<close>

lemma collect_links_skips_row:
  assumes "row_cell row = Some cell" and "row_anchor row = None"
  shows "collect_links (row # rows) links = collect_links rows links"
  using assms by (simp add: row_cell_def row_anchor_def)

lemma collect_links_step:
  "collect_links (row # rows) links =
     (case row_cell row of
        None \<Rightarrow> Inl (AttributeError ''a'')
      | Some cell \<Rightarrow>
          (case row_anchor row of
             None \<Rightarrow> collect_links rows links
           | Some link_elem \<Rightarrow>
               (case row_href row of
                  None \<Rightarrow> Inl (KeyError ''href'')
                | Some href \<Rightarrow> collect_links rows (links @ [BASE_URL @ href]))))"
  by (simp add: row_cell_def row_anchor_def row_href_def split: option.splits)

lemma collect_links_all:
  assumes "\<forall>row\<in>set rows. row_cell row \<noteq> None \<and> (has_anchor row \<longrightarrow> row_href row \<noteq> None)"
  shows "collect_links rows links
           = Inr (links @ map ((@) BASE_URL) (List.map_filter row_href rows))"
  using assms
proof (induction rows arbitrary: links)
  case Nil
  show ?case by (simp add: List.map_filter_simps)
next
  case (Cons row rows)
  then obtain cell where cell: "row_cell row = Some cell" by auto
  show ?case
  proof (cases "row_anchor row")
    case None
    then have "row_href row = None" by (simp add: row_href_def)
    with None cell Cons show ?thesis
      by (simp add: collect_links_step List.map_filter_simps del: collect_links.simps)
  next
    case (Some link_elem)
    with Cons.prems obtain href where "row_href row = Some href"
      by (auto simp: has_anchor_def)
    with Some cell Cons show ?thesis
      by (simp add: collect_links_step List.map_filter_simps del: collect_links.simps)
  qed
qed

lemma collect_links_key_error:
  assumes "\<forall>row\<in>set rows. row_cell row \<noteq> None"
      and "\<exists>row\<in>set rows. has_anchor row \<and> row_href row = None"
  shows "collect_links rows links = Inl (KeyError ''href'')"
  using assms
proof (induction rows arbitrary: links)
  case Nil
  then show ?case by simp
next
  case (Cons row rows)
  then obtain cell where cell: "row_cell row = Some cell" by auto
  show ?case
  proof (cases "row_anchor row")
    case None
    then have "\<not> has_anchor row" by (simp add: has_anchor_def)
    with Cons.prems have "\<exists>row\<in>set rows. has_anchor row \<and> row_href row = None" by auto
    with None cell Cons show ?thesis
      by (simp add: collect_links_step del: collect_links.simps)
  next
    case (Some link_elem)
    show ?thesis
    proof (cases "row_href row")
      case None
      with Some cell show ?thesis
        by (simp add: collect_links_step del: collect_links.simps)
    next
      case (Some href)
      with Cons.prems have "\<exists>row\<in>set rows. has_anchor row \<and> row_href row = None" by auto
      with Some \<open>row_anchor row = Some link_elem\<close> cell Cons show ?thesis
        by (simp add: collect_links_step del: collect_links.simps)
    qed
  qed
qed

lemma map_filter_href_length:
  assumes "\<forall>row\<in>set rows. has_anchor row \<longrightarrow> row_href row \<noteq> None"
  shows "length (List.map_filter row_href rows) = length (filter has_anchor rows)"
  using assms
proof (induction rows)
  case Nil
  show ?case by (simp add: List.map_filter_simps)
next
  case (Cons row rows)
  show ?case
  proof (cases "has_anchor row")
    case True
    with Cons show ?thesis by (auto simp: List.map_filter_simps)
  next
    case False
    then have "row_href row = None" by (simp add: has_anchor_def row_href_def)
    with False Cons show ?thesis by (simp add: List.map_filter_simps)
  qed
qed

text \<open>
  C2. A sortable row with no right-aligned cell is not skipped: the page below has such a
  row after a regular one, and the extraction raises \<^verbatim>\<open>AttributeError\<close>, in
  \<^verbatim>\<open>extract_links\<close> and so in \<^verbatim>\<open>scrape_page\<close>.
\<close>

theorem extract_links_missing_cell:
  "find_all ''tr'' (class_is ''toSort'') (listing [link_row ''/services/1'', bare_row])
     = [link_row ''/services/1'', bare_row]
   \<and> row_cell bare_row = None
   \<and> extract_links (listing [link_row ''/services/1'', bare_row]) = Inl (AttributeError ''a'')
   \<and> fst (scrape_page
            (site (page 200 []) 200
               [(page_url 1, page 200 (listing [link_row ''/services/1'', bare_row]))])
            1 world0)
     = Inl (AttributeError ''a'')"
  by (simp add: session_send_direct is_redirect_def fixture_defs extract_links_def fst_scrape_page site_def page_def
      raise_for_status_def page_url_def SERVICES_URL_def LOGIN_URL_def BASE_URL_def)

text \<open>
  Both sortable rows of this page hold an anchor in their right-aligned cell, the second
  anchor without \<^verbatim>\<open>href\<close>: no list of two URLs is returned, \<^verbatim>\<open>KeyError\<close> is raised.
\<close>

theorem extract_links_counterexample:
  "length (find_all ''tr'' (class_is ''toSort'') (listing [link_row ''/services/1'', hrefless_row]))
     = 2
   \<and> length (filter has_anchor
        (find_all ''tr'' (class_is ''toSort'') (listing [link_row ''/services/1'', hrefless_row])))
     = 2
   \<and> extract_links (listing [link_row ''/services/1'', hrefless_row]) = Inl (KeyError ''href'')"
  by (simp add: fixture_defs extract_links_def)

text \<open>
  C6, as the code has it. On a listing page whose sortable rows all have a right-aligned
  cell: when every anchor found in those cells has an \<^verbatim>\<open>href\<close>, the extraction returns,
  in row order, one URL for each row that has an anchor and none for the others, each the
  base URL followed by the row's \<^verbatim>\<open>href\<close>; when some anchor found has no \<^verbatim>\<open>href\<close>, it
  raises \<^verbatim>\<open>KeyError\<close>.
\<close>

theorem extract_links_rows_with_cells:
  assumes "\<forall>row\<in>set (find_all ''tr'' (class_is ''toSort'') doc). row_cell row \<noteq> None"
  shows "((\<forall>row\<in>set (find_all ''tr'' (class_is ''toSort'') doc).
             has_anchor row \<longrightarrow> row_href row \<noteq> None)
          \<longrightarrow> extract_links doc
                = Inr (map ((@) BASE_URL)
                        (List.map_filter row_href (find_all ''tr'' (class_is ''toSort'') doc)))
              \<and> length (List.map_filter row_href (find_all ''tr'' (class_is ''toSort'') doc))
                = length (filter has_anchor (find_all ''tr'' (class_is ''toSort'') doc)))
         \<and> ((\<exists>row\<in>set (find_all ''tr'' (class_is ''toSort'') doc).
               has_anchor row \<and> row_href row = None)
            \<longrightarrow> extract_links doc = Inl (KeyError ''href''))"
  using assms collect_links_all [of "find_all ''tr'' (class_is ''toSort'') doc" "[]"]
    collect_links_key_error [of "find_all ''tr'' (class_is ''toSort'') doc" "[]"]
    map_filter_href_length [of "find_all ''tr'' (class_is ''toSort'') doc"]
  by (simp add: extract_links_def)

theorem extract_links_rows_with_cells_witness:
  "find_all ''tr'' (class_is ''toSort'')
     (listing [link_row ''/services/1'', plain_row, link_row ''/services/2''])
     = [link_row ''/services/1'', plain_row, link_row ''/services/2'']
   \<and> filter has_anchor [link_row ''/services/1'', plain_row, link_row ''/services/2'']
     = [link_row ''/services/1'', link_row ''/services/2'']
   \<and> extract_links (listing [link_row ''/services/1'', plain_row, link_row ''/services/2''])
     = Inr [''https://edit.tosdr.org/services/1'', ''https://edit.tosdr.org/services/2'']
   \<and> has_anchor hrefless_row \<and> row_href hrefless_row = None
   \<and> extract_links (listing [plain_row, hrefless_row]) = Inl (KeyError ''href'')"
proof -
  let ?doc = "listing [link_row ''/services/1'', plain_row, link_row ''/services/2'']"
  let ?bad = "listing [plain_row, hrefless_row]"
  have rows: "find_all ''tr'' (class_is ''toSort'') ?doc
                = [link_row ''/services/1'', plain_row, link_row ''/services/2'']"
    by (simp add: fixture_defs)
  have anchors: "filter has_anchor [link_row ''/services/1'', plain_row, link_row ''/services/2'']
                = [link_row ''/services/1'', link_row ''/services/2'']"
    by (simp add: fixture_defs)
  have cells: "\<forall>row\<in>set (find_all ''tr'' (class_is ''toSort'') ?doc). row_cell row \<noteq> None"
    unfolding rows by (simp add: fixture_defs)
  have hrefs: "\<forall>row\<in>set (find_all ''tr'' (class_is ''toSort'') ?doc).
                 has_anchor row \<longrightarrow> row_href row \<noteq> None"
    unfolding rows by (simp add: fixture_defs)
  have urls: "map ((@) BASE_URL) (List.map_filter row_href
                 [link_row ''/services/1'', plain_row, link_row ''/services/2''])
              = [''https://edit.tosdr.org/services/1'', ''https://edit.tosdr.org/services/2'']"
    by (simp add: fixture_defs List.map_filter_simps BASE_URL_def)
  have rows': "find_all ''tr'' (class_is ''toSort'') ?bad = [plain_row, hrefless_row]"
    by (simp add: fixture_defs)
  have cells': "\<forall>row\<in>set (find_all ''tr'' (class_is ''toSort'') ?bad). row_cell row \<noteq> None"
    unfolding rows' by (simp add: fixture_defs)
  have no_href: "has_anchor hrefless_row \<and> row_href hrefless_row = None"
    by (simp add: fixture_defs)
  then have bad: "\<exists>row\<in>set (find_all ''tr'' (class_is ''toSort'') ?bad).
                    has_anchor row \<and> row_href row = None"
    unfolding rows' by simp
  show ?thesis
    using extract_links_rows_with_cells [OF cells] hrefs rows anchors urls
      extract_links_rows_with_cells [OF cells'] bad no_href
    by simp
qed

end
